theory Spec2Isabelle
  imports Main "HOL-Library.Word"
begin

section \<open>JavaScript values\<close>

text \<open>
  The values that cross the transport and that the store keeps as its state: the
  primitives of the language and plain objects (an ordered list of properties).
  Numbers are the integers from \<open>-2^53\<close> up to \<open>2^53 - 1\<close> (a 54-bit word, read as
  signed: each is a double, and prints in plain decimal) plus \<open>NaN\<close>; fractions and
  larger numbers are left out, as are arrays: the store never looks into one. Callbacks are not values of this type, they are modelled separately (see
  \<open>listener\<close> and \<open>jsarg\<close>).
\<close>

datatype jsval =
    JUndefined
  | JNull
  | JBool bool
  | JNum "54 word"
  | JNaN
  | JStr string
  | JObj "(string \<times> jsval) list"

text \<open>What a \<open>throw\<close> carries: a built-in error with its message, or a value
  thrown by a function supplied by the user.\<close>

datatype exn =
    ErrorExn string
  | TypeErrorExn string
  | UserThrow jsval

definition bindE :: "exn + 'a \<Rightarrow> ('a \<Rightarrow> exn + 'b) \<Rightarrow> exn + 'b" where
  "bindE r f = (case r of Inl e \<Rightarrow> Inl e | Inr x \<Rightarrow> f x)"

text \<open>\<open>Boolean(v)\<close>, the test of \<open>if (v)\<close>, \<open>!v\<close> and \<open>v && w\<close>.\<close>

fun truthy :: "jsval \<Rightarrow> bool" where
  "truthy JUndefined = False"
| "truthy JNull = False"
| "truthy (JBool b) = b"
| "truthy (JNum n) = (n \<noteq> 0)"
| "truthy JNaN = False"
| "truthy (JStr s) = (s \<noteq> [])"
| "truthy (JObj kvs) = True"

text \<open>\<open>typeof v === "string"\<close>.\<close>

fun typeof_string :: "jsval \<Rightarrow> bool" where
  "typeof_string (JStr s) = True"
| "typeof_string v = False"

text \<open>
  \<open>a === b\<close>. Primitives compare by value, except that \<open>NaN\<close> equals nothing.
  Objects compare by reference: the left operand is always read from a message that
  the transport has just built, so an object there is never the object on the right.
\<close>

fun strict_eq :: "jsval \<Rightarrow> jsval \<Rightarrow> bool" where
  "strict_eq (JObj kvs) b = False"
| "strict_eq JNaN b = False"
| "strict_eq a b = (a = b)"

text \<open>
  \<open>v.k\<close> for the property names the store reads (\<open>type\<close>, \<open>channelName\<close>,
  \<open>payload\<close>, \<open>error\<close>, \<open>value\<close>): a \<open>TypeError\<close> on \<open>undefined\<close> and
  \<open>null\<close>, the property or \<open>undefined\<close> on an object, \<open>undefined\<close> on any other
  primitive.
\<close>

fun getProp :: "jsval \<Rightarrow> string \<Rightarrow> exn + jsval" where
  "getProp JUndefined k = Inl (TypeErrorExn k)"
| "getProp JNull k = Inl (TypeErrorExn k)"
| "getProp (JObj kvs) k = Inr (case map_of kvs k of None \<Rightarrow> JUndefined | Some v \<Rightarrow> v)"
| "getProp v k = Inr JUndefined"

primrec setProp :: "string \<Rightarrow> jsval \<Rightarrow> (string \<times> jsval) list \<Rightarrow> (string \<times> jsval) list" where
  "setProp k v [] = [(k, v)]"
| "setProp k v (p # ps) = (if fst p = k then (k, v) # ps else p # setProp k v ps)"

text \<open>Decimal digits of a natural number, for \<open>String(n)\<close> and for index keys.\<close>

fun show_nat :: "nat \<Rightarrow> string" where
  "show_nat n =
     (if n < 10 then [''0123456789'' ! n]
      else show_nat (n div 10) @ [''0123456789'' ! (n mod 10)])"

declare show_nat.simps [simp del]

text \<open>The string conversion of a template literal, \<open>`${v}`\<close>.\<close>

fun toString :: "jsval \<Rightarrow> string" where
  "toString JUndefined = ''undefined''"
| "toString JNull = ''null''"
| "toString (JBool b) = (if b then ''true'' else ''false'')"
| "toString (JNum n) =
     (if sint n < 0 then CHR ''-'' # show_nat (nat (- sint n)) else show_nat (nat (sint n)))"
| "toString JNaN = ''NaN''"
| "toString (JStr s) = s"
| "toString (JObj kvs) = ''[object Object]''"

text \<open>
  An \<open>Error\<close> object is the list of its properties; \<open>new Error(msg)\<close> has the one
  property \<open>message\<close>.
\<close>

datatype jserror = JsError (props: "(string \<times> jsval) list")

definition newError :: "string \<Rightarrow> jserror" where
  "newError msg = JsError [(''message'', JStr msg)]"

text \<open>
  \<open>assignIn(target, source)\<close> of the package lodash.assignin: a falsy source is
  skipped; otherwise every enumerable property of the source is assigned to the target,
  a later assignment overwriting an earlier property of the same name. The enumerable
  properties of a string are its characters under their indices; numbers and booleans
  have none.
\<close>

definition enumerable :: "jsval \<Rightarrow> (string \<times> jsval) list" where
  "enumerable v =
     (case v of
        JObj kvs \<Rightarrow> kvs
      | JStr cs \<Rightarrow> zip (map show_nat [0 ..< length cs]) (map (\<lambda>c. JStr [c]) cs)
      | _ \<Rightarrow> [])"

definition assignIn :: "jserror \<Rightarrow> jsval \<Rightarrow> jserror" where
  "assignIn target source =
     (if truthy source
      then JsError (foldl (\<lambda>ps kv. setProp (fst kv) (snd kv) ps) (props target) (enumerable source))
      else target)"

section \<open>Imported constants\<close>

text \<open>Modelled from the spec: the message type strings of \<open>../constants\<close>, a module
  that is not among the sources. The spec gives the four type strings of an envelope.\<close>

definition DISPATCH_TYPE :: string where "DISPATCH_TYPE = ''DISPATCH''"
definition FETCH_STATE_TYPE :: string where "FETCH_STATE_TYPE = ''FETCH_STATE''"
definition STATE_TYPE :: string where "STATE_TYPE = ''STATE''"
definition PATCH_STATE_TYPE :: string where "PATCH_STATE_TYPE = ''PATCH_STATE''"

definition backgroundErrPrefix :: string where
  "backgroundErrPrefix =
     CHR 0x0A # ''Looks like there is an error in the background page. '' @
     ''You might want to inspect your background page for more details.'' @ [CHR 0x0A]"

text \<open>
  A serializer or deserializer is a function supplied by the user that may throw (the
  code catches it in \<open>dispatch\<close>). A patch strategy is a function that returns the next
  state.
\<close>

type_synonym transformer = "jsval \<Rightarrow> exn + jsval"
type_synonym patcher = "jsval \<Rightarrow> jsval \<Rightarrow> jsval"

text \<open>
  The other imports are parameters: the default channel name (\<open>../constants\<close>) and
  the default patch strategy (\<open>../strategies/shallowDiff/patch\<close>).
\<close>

record imported =
  DEFAULT_CHANNEL_NAME :: jsval
  shallowDiff :: patcher

text \<open>Modelled from the spec: \<open>noop\<close> of \<open>../serialization\<close>, the default serializer
  and deserializer. The spec has them default to the identity, the constructor's own
  documentation to a passthrough.\<close>

definition noop :: transformer where
  "noop payload = Inr payload"

section \<open>The store\<close>

text \<open>
  A listener is a zero-argument callback, known by its identity only. It is opaque:
  calling it is recorded in the trace of the store; it returns normally and does not
  call back into the store while the store notifies.
\<close>

type_synonym listener = nat

text \<open>The observable steps of the store's own code, in execution order.\<close>

datatype effect =
    StateSet jsval
  | PatchComputed jsval jsval
  | Called listener
  | ReadyResolve

text \<open>
  A promise is pending, fulfilled with a value, or rejected with a reason: an error
  object built by the store, or whatever a \<open>throw\<close> in the executor carried.
\<close>

datatype reason = ErrorObject jserror | Thrown exn

datatype promise = Pending | Fulfilled jsval | Rejected reason

text \<open>
  The fields of a \<open>Store\<close> instance (\<open>serializer\<close> is the one that the constructor
  binds into \<open>serializedMessageSender\<close>), plus what the run time keeps for it: the trace,
  the \<open>patchState\<close> calls suspended at \<open>await this.readyPromise\<close> (\<open>awaiting\<close>, the
  reactions of the pending promise, in order) and the resumed calls that wait for the
  current synchronous code to end (\<open>jobs\<close>, the microtask queue).
\<close>

record store =
  channelName :: jsval
  readyResolved :: bool
  readyPromise :: promise
  serializer :: transformer
  deserializer :: "transformer option"
  listeners :: "listener list"
  state :: jsval
  patchStrategy :: patcher
  trace :: "effect list"
  awaiting :: "jsval list"
  jobs :: "jsval list"

text \<open>\<open>this.listeners.forEach((l) => l())\<close>\<close>

definition notify :: "store \<Rightarrow> store" where
  "notify s = s\<lparr>trace := trace s @ map Called (listeners s)\<rparr>"

text \<open>
  \<open>this.readyResolve()\<close>: the resolving function of \<open>readyPromise\<close>, called with no
  argument. On a pending promise it fulfils it with \<open>undefined\<close> and schedules its
  reactions; on a settled promise it does nothing.
\<close>

definition readyResolve :: "store \<Rightarrow> store" where
  "readyResolve s =
     (case readyPromise s of
        Pending \<Rightarrow>
          s\<lparr>readyPromise := Fulfilled JUndefined,
            jobs := jobs s @ awaiting s,
            awaiting := [],
            trace := trace s @ [ReadyResolve]\<rparr>
      | _ \<Rightarrow> s\<lparr>trace := trace s @ [ReadyResolve]\<rparr>)"

definition subscribe :: "store \<Rightarrow> listener \<Rightarrow> store" where
  "subscribe s listener = s\<lparr>listeners := listeners s @ [listener]\<rparr>"

text \<open>The function that \<open>subscribe(listener)\<close> returns.\<close>

definition unsubscribe :: "listener \<Rightarrow> store \<Rightarrow> store" where
  "unsubscribe listener s = s\<lparr>listeners := filter (\<lambda>l. l \<noteq> listener) (listeners s)\<rparr>"

text \<open>The two statements of \<open>patchState\<close> after its wait.\<close>

definition patchState_resume :: "store \<Rightarrow> jsval \<Rightarrow> store" where
  "patchState_resume s difference =
     notify (s\<lparr>state := patchStrategy s (state s) difference,
               trace := trace s @ [PatchComputed (state s) difference,
                                   StateSet (patchStrategy s (state s) difference)]\<rparr>)"

text \<open>
  \<open>patchState\<close> is an async function: it runs synchronously up to its \<open>await\<close>. The
  awaited promise either is pending, and the rest of the call becomes one of its
  reactions, or is settled, and the rest of the call becomes a microtask.
\<close>

definition patchState :: "store \<Rightarrow> jsval \<Rightarrow> store" where
  "patchState s difference =
     (if \<not> readyResolved s
      then (case readyPromise s of
              Pending \<Rightarrow> s\<lparr>awaiting := awaiting s @ [difference]\<rparr>
            | _ \<Rightarrow> s\<lparr>jobs := jobs s @ [difference]\<rparr>)
      else patchState_resume s difference)"

definition replaceState :: "store \<Rightarrow> jsval \<Rightarrow> store" where
  "replaceState s v = notify (s\<lparr>state := v, trace := trace s @ [StateSet v]\<rparr>)"

definition getState :: "store \<Rightarrow> jsval" where
  "getState s = state s"

definition replaceReducer :: "store \<Rightarrow> store" where
  "replaceReducer s = s"

text \<open>\<open>ready()\<close> without a callback returns the promise.\<close>

definition ready :: "store \<Rightarrow> promise" where
  "ready s = readyPromise s"

text \<open>The lines that both initialization paths share after \<open>replaceState\<close>.\<close>

definition resolveIfNeeded :: "store \<Rightarrow> store" where
  "resolveIfNeeded s =
     (if \<not> readyResolved s then readyResolve (s\<lparr>readyResolved := True\<rparr>) else s)"

definition initializeStore :: "store \<Rightarrow> jsval \<Rightarrow> exn + store" where
  "initializeStore s message =
     (if \<not> truthy message then Inr s
      else bindE (getProp message ''type'') (\<lambda>ty.
        if strict_eq ty (JStr FETCH_STATE_TYPE) then
          bindE (getProp message ''payload'') (\<lambda>p.
            bindE (case deserializer s of
                     None \<Rightarrow> Inl (TypeErrorExn ''deserializer'')
                   | Some f \<Rightarrow> f p) (\<lambda>v.
              Inr (resolveIfNeeded (replaceState s v))))
        else Inr s))"

text \<open>The predicate handed to the deserializing wrapper of the port listener.\<close>

definition shouldDeserialize :: "store \<Rightarrow> jsval \<Rightarrow> bool" where
  "shouldDeserialize s message =
     (truthy message \<and>
      (case getProp message ''type'' of Inl e \<Rightarrow> False | Inr ty \<Rightarrow> typeof_string ty) \<and>
      (case getProp message ''channelName'' of
         Inl e \<Rightarrow> False | Inr cn \<Rightarrow> strict_eq cn (channelName s)))"

text \<open>
  The listener registered in the constructor. It receives the message as the wrapper
  hands it over, that is, with the payload already deserialized where the wrapper did so.
\<close>

definition portListener :: "store \<Rightarrow> jsval \<Rightarrow> exn + store" where
  "portListener s message =
     (if \<not> truthy message then Inr s
      else bindE (getProp message ''channelName'') (\<lambda>cn.
        if \<not> strict_eq cn (channelName s) then Inr s
        else bindE (getProp message ''type'') (\<lambda>ty.
          if strict_eq ty (JStr STATE_TYPE) then
            bindE (getProp message ''payload'') (\<lambda>p.
              Inr (resolveIfNeeded (replaceState s p)))
          else if strict_eq ty (JStr PATCH_STATE_TYPE) then
            bindE (getProp message ''payload'') (\<lambda>p. Inr (patchState s p))
          else Inr s)))"

text \<open>Modelled from the spec: \<open>withDeserializer\<close> of \<open>../serialization\<close>, a module
  that is not among the sources. It wraps the registration of the port listener: every
  inbound message reaches the listener; the deserializer is applied to the payload of
  exactly the messages that the predicate accepts (the source's comment on
  \<open>shouldDeserialize\<close>: the predicate only skips deserializing, the listener is still
  called for each message). The first component of the result lists the arguments of
  the deserializer's invocations, the second is the outcome of the listener, or the
  exception that the deserializer threw.
\<close>

definition serializedPortListener :: "store \<Rightarrow> jsval \<Rightarrow> jsval list \<times> (exn + store)" where
  "serializedPortListener s message =
     (if shouldDeserialize s message
      then (case getProp message ''payload'' of
              Inl e \<Rightarrow> ([], Inl e)
            | Inr p \<Rightarrow>
                (case deserializer s of
                   None \<Rightarrow> ([], Inl (TypeErrorExn ''deserializer''))
                 | Some f \<Rightarrow>
                     (case f p of
                        Inl e \<Rightarrow> ([p], Inl e)
                      | Inr v \<Rightarrow>
                          ([p], portListener s
                                  (case message of
                                     JObj kvs \<Rightarrow> JObj (setProp ''payload'' v kvs)
                                   | m \<Rightarrow> m)))))
      else ([], portListener s message))"

section \<open>Dispatch\<close>

text \<open>
  The part of the browser API that the store touches: the messages handed to
  \<open>runtime.sendMessage\<close>, the number of listeners added to \<open>runtime.onMessage\<close>, and
  \<open>runtime.lastError\<close>.
\<close>

record browser =
  sent :: "jsval list"
  onMessage :: nat
  lastError :: jsval

text \<open>The envelope that \<open>dispatch(data)\<close> hands to the serializing sender.\<close>

definition dispatch_message :: "store \<Rightarrow> jsval \<Rightarrow> jsval" where
  "dispatch_message s data =
     JObj [(''type'', JStr DISPATCH_TYPE), (''channelName'', channelName s), (''payload'', data)]"

text \<open>
  The response callback of \<open>dispatch\<close>. It settles the promise that \<open>dispatch\<close> has
  returned (\<open>Inr\<close>), unless it throws (\<open>Inl\<close>).
\<close>

definition dispatch_callback :: "store \<Rightarrow> browser \<Rightarrow> jsval \<Rightarrow> exn + promise" where
  "dispatch_callback s api resp =
     (if \<not> truthy resp
      then Inr (Rejected (ErrorObject
                  (assignIn (newError (backgroundErrPrefix @ toString (lastError api)))
                            (lastError api))))
      else bindE (getProp resp ''error'') (\<lambda>error.
           bindE (getProp resp ''value'') (\<lambda>raw.
             let v = (case deserializer s of
                        None \<Rightarrow> raw
                      | Some f \<Rightarrow> (case f raw of Inl e \<Rightarrow> raw | Inr d \<Rightarrow> d))
             in if truthy error
                then Inr (Rejected (ErrorObject
                            (assignIn (newError (backgroundErrPrefix @ toString error)) error)))
                else if truthy v
                     then bindE (getProp v ''payload'') (\<lambda>p. Inr (Fulfilled p))
                     else Inr (Fulfilled v))))"

text \<open>
  What the call \<open>this.serializedMessageSender(message, null, callback)\<close> in the executor
  of \<open>dispatch\<close> does: it throws (the serializer does, or \<open>runtime.sendMessage\<close>), or it
  returns and the callback is never called, or it returns and the callback is called
  with a response.
\<close>

datatype sending = SendThrows exn | NoResponse | Responds jsval

text \<open>
  \<open>dispatch(data)\<close>: the promise it returns. The executor hands \<open>dispatch_message\<close> and
  the callback to the sender; a throw in the executor rejects the promise with what was
  thrown, and otherwise the promise is settled by the callback, if that is ever called.
\<close>

definition dispatch :: "store \<Rightarrow> browser \<Rightarrow> jsval \<Rightarrow> sending \<Rightarrow> exn + promise" where
  "dispatch s api data sending =
     (case sending of
        SendThrows e \<Rightarrow> Inr (Rejected (Thrown e))
      | NoResponse \<Rightarrow> Inr Pending
      | Responds resp \<Rightarrow> dispatch_callback s api resp)"

text \<open>Modelled from the spec: \<open>withSerializer\<close> of \<open>../serialization\<close>, a module that
  is not among the sources, as the constructor applies it to the serializer and to
  \<open>runtime.sendMessage\<close>. The serializer is applied to the payload of the outgoing
  message at the transport edge; if it throws, nothing is sent; otherwise the message
  goes to \<open>runtime.sendMessage\<close>, and \<open>transport\<close> is what that does with it.\<close>

definition serializedMessageSender :: "store \<Rightarrow> jsval \<Rightarrow> sending \<Rightarrow> sending" where
  "serializedMessageSender s message transport =
     (case getProp message ''payload'' of
        Inl e \<Rightarrow> SendThrows e
      | Inr p \<Rightarrow> (case serializer s p of Inl e \<Rightarrow> SendThrows e | Inr w \<Rightarrow> transport))"

section \<open>Construction\<close>

text \<open>The request for the latest state that the constructor sends.\<close>

definition fetchRequest :: "jsval \<Rightarrow> jsval" where
  "fetchRequest cn = JObj [(''type'', JStr FETCH_STATE_TYPE), (''channelName'', cn)]"

text \<open>
  An option that may hold a function: \<open>typeof x === 'function'\<close> (\<open>callable\<close>)
  holds of \<open>Function f\<close> only. A property that is absent is \<open>Value JUndefined\<close>.
\<close>

datatype 'f jsarg = Value jsval | Function 'f

fun callable :: "'f jsarg \<Rightarrow> bool" where
  "callable (Function f) = True"
| "callable (Value v) = False"

record options =
  opt_channelName :: jsval
  opt_state :: jsval
  opt_serializer :: "transformer jsarg"
  opt_deserializer :: "transformer jsarg"
  opt_patchStrategy :: "patcher jsarg"

definition defaultOpts :: "imported \<Rightarrow> options" where
  "defaultOpts imp =
     \<lparr>opt_channelName = DEFAULT_CHANNEL_NAME imp,
      opt_state = JObj [],
      opt_serializer = Function noop,
      opt_deserializer = Function noop,
      opt_patchStrategy = Function (shallowDiff imp)\<rparr>"

text \<open>A default of a destructuring pattern replaces \<open>undefined\<close> only.\<close>

definition orDefault :: "jsval \<Rightarrow> jsval \<Rightarrow> jsval" where
  "orDefault v d = (if v = JUndefined then d else v)"

definition orDefaultArg :: "'f jsarg \<Rightarrow> 'f jsarg \<Rightarrow> 'f jsarg" where
  "orDefaultArg v d = (case v of Value JUndefined \<Rightarrow> d | _ \<Rightarrow> v)"

text \<open>
  The constructor, on the browser API (which \<open>getBrowserAPI\<close> is taken to return): it
  throws and leaves the API untouched, or returns the instance, having sent the fetch
  request and registered the port listener. The argument is \<open>None\<close> when the caller
  passes no options object.
\<close>

definition Store_constructor ::
  "imported \<Rightarrow> browser \<Rightarrow> options option \<Rightarrow> (exn + store) \<times> browser" where
  "Store_constructor imp api arg =
     (let opts = (case arg of None \<Rightarrow> defaultOpts imp | Some given \<Rightarrow> given);
          cn = orDefault (opt_channelName opts) (opt_channelName (defaultOpts imp));
          st = orDefault (opt_state opts) (opt_state (defaultOpts imp));
          ser = orDefaultArg (opt_serializer opts) (opt_serializer (defaultOpts imp));
          des = orDefaultArg (opt_deserializer opts) (opt_deserializer (defaultOpts imp));
          pat = orDefaultArg (opt_patchStrategy opts) (opt_patchStrategy (defaultOpts imp))
      in if \<not> truthy cn then (Inl (ErrorExn ''channelName is required in options''), api)
         else case ser of
           Value x \<Rightarrow> (Inl (ErrorExn ''serializer must be a function''), api)
         | Function ser_fn \<Rightarrow>
         (case des of
           Value y \<Rightarrow> (Inl (ErrorExn ''deserializer must be a function''), api)
         | Function des_fn \<Rightarrow>
         (case pat of
           Value z \<Rightarrow>
             (Inl (ErrorExn (''patchStrategy must be one of the included patching '' @
                             ''strategies or a custom patching function'')), api)
         | Function pat_fn \<Rightarrow>
             (Inr \<lparr>channelName = cn,
                   readyResolved = False,
                   readyPromise = Pending,
                   serializer = ser_fn,
                   deserializer = Some des_fn,
                   listeners = [],
                   state = st,
                   patchStrategy = pat_fn,
                   trace = [],
                   awaiting = [],
                   jobs = []\<rparr>,
              api\<lparr>sent := sent api @ [fetchRequest cn],
                  onMessage := Suc (onMessage api)\<rparr>))))"

section \<open>The store over time\<close>

text \<open>
  What can happen to a store: the transport delivers a message to the port listener
  or answers the fetch request, or the application calls a method that may change the
  store. Each is one synchronous run of the store's code, after which the microtasks
  run. (\<open>getState\<close>, \<open>ready\<close> and \<open>dispatch\<close> read the store and return a value;
  they leave no store behind and are no events.)
\<close>

datatype event =
    PortMessage jsval
  | FetchResponse jsval
  | Subscribe listener
  | Unsubscribe listener
  | ReplaceState jsval
  | PatchState jsval
  | ReplaceReducer

definition runMicrotasks :: "store \<Rightarrow> store" where
  "runMicrotasks s = foldl patchState_resume (s\<lparr>jobs := []\<rparr>) (jobs s)"

text \<open>An exception leaves the handler before it has assigned anything.\<close>

definition handle :: "store \<Rightarrow> event \<Rightarrow> store" where
  "handle s e =
     (case e of
        PortMessage m \<Rightarrow> (case portListener s m of Inl x \<Rightarrow> s | Inr s' \<Rightarrow> s')
      | FetchResponse m \<Rightarrow> (case initializeStore s m of Inl x \<Rightarrow> s | Inr s' \<Rightarrow> s')
      | Subscribe l \<Rightarrow> subscribe s l
      | Unsubscribe l \<Rightarrow> unsubscribe l s
      | ReplaceState v \<Rightarrow> replaceState s v
      | PatchState d \<Rightarrow> patchState s d
      | ReplaceReducer \<Rightarrow> replaceReducer s)"

definition step :: "store \<Rightarrow> event \<Rightarrow> store" where
  "step s e = runMicrotasks (handle s e)"

definition run :: "store \<Rightarrow> event list \<Rightarrow> store" where
  "run s es = foldl step s es"

section \<open>Notions used in the statements\<close>

text \<open>\<open>v.k\<close> where the read cannot fail, \<open>undefined\<close> standing in otherwise.\<close>

definition the_prop :: "jsval \<Rightarrow> string \<Rightarrow> jsval" where
  "the_prop v k = (case getProp v k of Inl e \<Rightarrow> JUndefined | Inr x \<Rightarrow> x)"

text \<open>The value after the \<open>try\<close>/\<open>catch\<close> around the deserializer in \<open>dispatch\<close>.\<close>

definition deserialized :: "store \<Rightarrow> jsval \<Rightarrow> jsval" where
  "deserialized s raw =
     (case deserializer s of
        None \<Rightarrow> raw
      | Some f \<Rightarrow> (case f raw of Inl e \<Rightarrow> raw | Inr d \<Rightarrow> d))"

text \<open>How often \<open>readyResolve\<close> has been invoked.\<close>

definition resolveCalls :: "store \<Rightarrow> nat" where
  "resolveCalls s = length (filter (\<lambda>e. e = ReadyResolve) (trace s))"

fun isPatch :: "effect \<Rightarrow> bool" where
  "isPatch (PatchComputed st d) = True"
| "isPatch e = False"

text \<open>
  The effects of applying the differences \<open>ds\<close> one after the other, from the state
  \<open>st\<close>, with the patch strategy \<open>f\<close> and the listeners \<open>ls\<close>.
\<close>

fun patch_effects :: "patcher \<Rightarrow> listener list \<Rightarrow> jsval \<Rightarrow> jsval list \<Rightarrow> effect list" where
  "patch_effects f ls st [] = []"
| "patch_effects f ls st (d # ds) =
     PatchComputed st d # StateSet (f st d) # map Called ls @ patch_effects f ls (f st d) ds"

text \<open>The state after a sequence of effects: the value of the last assignment.\<close>

fun replay :: "jsval \<Rightarrow> effect list \<Rightarrow> jsval" where
  "replay st [] = st"
| "replay st (StateSet v # es) = replay v es"
| "replay st (e # es) = replay st es"

definition tracks :: "store \<Rightarrow> store \<Rightarrow> bool" where
  "tracks s s' \<longleftrightarrow> (\<exists>ext. trace s' = trace s @ ext \<and> state s' = replay (state s) ext)"

text \<open>What holds of a store between two events.\<close>

definition store_inv :: "store \<Rightarrow> bool" where
  "store_inv s \<longleftrightarrow>
     jobs s = [] \<and>
     (readyResolved s \<longrightarrow>
        readyPromise s = Fulfilled JUndefined \<and> resolveCalls s = 1 \<and> awaiting s = []) \<and>
     (\<not> readyResolved s \<longrightarrow>
        readyPromise s = Pending \<and> resolveCalls s = 0 \<and> \<not> list_ex isPatch (trace s))"

section \<open>A concrete store\<close>

text \<open>
  A patch strategy that merges the top-level keys of the difference into the state,
  later values winning per key; the channel \<open>main\<close>; every other option left out.
\<close>

definition ex_patch :: patcher where
  "ex_patch cur diff =
     (case diff of
        JObj ds \<Rightarrow>
          (case cur of
             JObj cs \<Rightarrow> JObj (foldl (\<lambda>ps kv. setProp (fst kv) (snd kv) ps) cs ds)
           | _ \<Rightarrow> diff)
      | _ \<Rightarrow> cur)"

definition ex_imported :: imported where
  "ex_imported = \<lparr>DEFAULT_CHANNEL_NAME = JStr ''default'', shallowDiff = ex_patch\<rparr>"

definition ex_browser :: browser where
  "ex_browser = \<lparr>sent = [], onMessage = 0, lastError = JUndefined\<rparr>"

definition ex_options :: options where
  "ex_options =
     \<lparr>opt_channelName = JStr ''main'',
      opt_state = JUndefined,
      opt_serializer = Value JUndefined,
      opt_deserializer = Value JUndefined,
      opt_patchStrategy = Value JUndefined\<rparr>"

definition ex_store :: store where
  "ex_store =
     \<lparr>channelName = JStr ''main'',
      readyResolved = False,
      readyPromise = Pending,
      serializer = noop,
      deserializer = Some noop,
      listeners = [],
      state = JObj [],
      patchStrategy = ex_patch,
      trace = [],
      awaiting = [],
      jobs = []\<rparr>"

definition ex_envelope :: "string \<Rightarrow> string \<Rightarrow> jsval \<Rightarrow> jsval" where
  "ex_envelope ty cn p = JObj [(''type'', JStr ty), (''channelName'', JStr cn), (''payload'', p)]"

definition ex_count :: "54 word \<Rightarrow> jsval" where
  "ex_count n = JObj [(''count'', JNum n)]"

section \<open>Basic facts\<close>

lemma getProp_truthy: "truthy v \<Longrightarrow> getProp v k = Inr (the_prop v k)"
  by (cases v) (simp_all add: the_prop_def)

lemma strict_eq_JStr: "strict_eq a (JStr x) \<Longrightarrow> typeof_string a"
  by (cases a) auto

lemma map_of_setProp: "map_of (setProp k v kvs) k' = (if k' = k then Some v else map_of kvs k')"
  by (induction kvs) auto


subsection \<open>The handlers, case by case\<close>

lemma portListener_cases:
  "portListener s m = Inr s \<or>
   (\<exists>p. portListener s m = Inr (resolveIfNeeded (replaceState s p))) \<or>
   (\<exists>p. portListener s m = Inr (patchState s p))"
  by (cases m) (auto simp: portListener_def bindE_def)

lemma initializeStore_cases:
  "initializeStore s m = Inr s \<or> (\<exists>e. initializeStore s m = Inl e) \<or>
   (\<exists>v. initializeStore s m = Inr (resolveIfNeeded (replaceState s v)))"
  by (cases m) (auto simp: initializeStore_def bindE_def split: option.splits sum.splits)

lemma handle_cases:
  "handle s e = s \<or> (\<exists>l. handle s e = subscribe s l) \<or> (\<exists>l. handle s e = unsubscribe l s) \<or>
   (\<exists>v. handle s e = replaceState s v) \<or> (\<exists>d. handle s e = patchState s d) \<or>
   (\<exists>v. handle s e = resolveIfNeeded (replaceState s v))"
proof (cases e)
  case (PortMessage m)
  then show ?thesis using portListener_cases [of s m] by (auto simp: handle_def)
next
  case (FetchResponse m)
  then show ?thesis using initializeStore_cases [of s m] by (auto simp: handle_def)
qed (auto simp: handle_def replaceReducer_def)

lemma portListener_discards:
  assumes "\<not> truthy m \<or> \<not> strict_eq (the_prop m ''channelName'') (channelName s) \<or>
           (\<not> strict_eq (the_prop m ''type'') (JStr STATE_TYPE) \<and>
            \<not> strict_eq (the_prop m ''type'') (JStr PATCH_STATE_TYPE))"
  shows "portListener s m = Inr s"
  using assms by (cases m) (auto simp: portListener_def bindE_def the_prop_def)

lemma resolveIfNeeded_replaceState:
  "trace (resolveIfNeeded (replaceState s v)) =
     trace s @ StateSet v # map Called (listeners s) @
     (if readyResolved s then [] else [ReadyResolve]) \<and>
   state (resolveIfNeeded (replaceState s v)) = v \<and>
   readyResolved (resolveIfNeeded (replaceState s v))"
  by (simp add: resolveIfNeeded_def replaceState_def notify_def readyResolve_def
      split: promise.splits)

lemma dispatch_callback_eq:
  "dispatch_callback s api resp =
     Inr (if \<not> truthy resp
          then Rejected (ErrorObject
                 (assignIn (newError (backgroundErrPrefix @ toString (lastError api)))
                           (lastError api)))
          else if truthy (the_prop resp ''error'')
          then Rejected (ErrorObject
                 (assignIn (newError (backgroundErrPrefix @ toString (the_prop resp ''error'')))
                           (the_prop resp ''error'')))
          else if truthy (deserialized s (the_prop resp ''value''))
          then Fulfilled (the_prop (deserialized s (the_prop resp ''value'')) ''payload'')
          else Fulfilled (deserialized s (the_prop resp ''value'')))"
  by (simp add: dispatch_callback_def bindE_def getProp_truthy deserialized_def Let_def)

subsection \<open>Microtasks\<close>

lemma foldl_resume_fields:
  "jobs (foldl patchState_resume s ds) = jobs s \<and>
   awaiting (foldl patchState_resume s ds) = awaiting s \<and>
   readyResolved (foldl patchState_resume s ds) = readyResolved s \<and>
   readyPromise (foldl patchState_resume s ds) = readyPromise s \<and>
   listeners (foldl patchState_resume s ds) = listeners s \<and>
   patchStrategy (foldl patchState_resume s ds) = patchStrategy s"
  by (induction ds arbitrary: s) (simp_all add: patchState_resume_def notify_def)

lemma foldl_resume_trace:
  "trace (foldl patchState_resume s ds) =
     trace s @ patch_effects (patchStrategy s) (listeners s) (state s) ds"
  by (induction ds arbitrary: s) (simp_all add: patchState_resume_def notify_def)

lemma foldl_resume_state:
  "state (foldl patchState_resume s ds) = foldl (patchStrategy s) (state s) ds"
  by (induction ds arbitrary: s) (simp_all add: patchState_resume_def notify_def)

lemma patch_effects_no_resolve:
  "filter (\<lambda>e. e = ReadyResolve) (patch_effects f ls st ds) = []"
  by (induction ds arbitrary: st) (simp_all add: filter_empty_conv image_iff)

lemma runMicrotasks_resolveCalls: "resolveCalls (runMicrotasks s) = resolveCalls s"
  by (simp add: runMicrotasks_def resolveCalls_def foldl_resume_trace patch_effects_no_resolve)

lemma runMicrotasks_nil: "jobs s = [] \<Longrightarrow> runMicrotasks s = s"
  by (simp add: runMicrotasks_def)

lemma runMicrotasks_fields:
  "jobs (runMicrotasks s) = [] \<and>
   awaiting (runMicrotasks s) = awaiting s \<and>
   readyResolved (runMicrotasks s) = readyResolved s \<and>
   readyPromise (runMicrotasks s) = readyPromise s \<and>
   listeners (runMicrotasks s) = listeners s"
  by (simp add: runMicrotasks_def foldl_resume_fields)

lemma run_snoc: "run s (es @ [e]) = step (run s es) e"
  by (simp add: run_def)

lemma run_append: "run s (es @ es') = run (run s es) es'"
  by (simp add: run_def)

subsection \<open>The invariant\<close>

lemma inv_subscribe: "store_inv s \<Longrightarrow> store_inv (runMicrotasks (subscribe s l))"
  by (simp add: store_inv_def subscribe_def runMicrotasks_def resolveCalls_def)

lemma inv_unsubscribe: "store_inv s \<Longrightarrow> store_inv (runMicrotasks (unsubscribe l s))"
  by (simp add: store_inv_def unsubscribe_def runMicrotasks_def resolveCalls_def)

lemma inv_replaceState: "store_inv s \<Longrightarrow> store_inv (runMicrotasks (replaceState s v))"
  by (auto simp: store_inv_def replaceState_def notify_def runMicrotasks_def resolveCalls_def
      filter_empty_conv image_iff list_ex_iff)

lemma inv_patchState: "store_inv s \<Longrightarrow> store_inv (runMicrotasks (patchState s d))"
  by (auto simp: store_inv_def patchState_def patchState_resume_def notify_def
      runMicrotasks_def resolveCalls_def filter_empty_conv image_iff)

lemma inv_resolve:
  assumes "store_inv s"
  shows "store_inv (runMicrotasks (resolveIfNeeded (replaceState s v)))"
proof (cases "readyResolved s")
  case True
  then have "resolveIfNeeded (replaceState s v) = replaceState s v"
    by (simp add: resolveIfNeeded_def replaceState_def notify_def)
  then show ?thesis using assms inv_replaceState by simp
next
  case False
  let ?t = "resolveIfNeeded (replaceState s v)"
  from False assms have t: "readyResolved ?t" "readyPromise ?t = Fulfilled JUndefined"
    "awaiting ?t = []" "resolveCalls ?t = 1"
    by (simp_all add: store_inv_def resolveIfNeeded_def replaceState_def notify_def
        readyResolve_def resolveCalls_def filter_empty_conv image_iff)
  then show ?thesis
    by (simp add: store_inv_def runMicrotasks_fields runMicrotasks_resolveCalls)
qed

lemma inv_step: "store_inv s \<Longrightarrow> store_inv (step s e)"
  unfolding step_def
  using handle_cases [of s e]
  by (auto simp: inv_subscribe inv_unsubscribe inv_replaceState inv_patchState inv_resolve
      runMicrotasks_nil store_inv_def [of s])

lemma inv_run: "store_inv s \<Longrightarrow> store_inv (run s es)"
  by (induction es rule: rev_induct) (simp_all add: run_def inv_step)

lemma constructor_fresh:
  assumes "Store_constructor imp api arg = (Inr s0, api')"
  shows "store_inv s0"
  using assms
  by (auto simp: Store_constructor_def Let_def store_inv_def resolveCalls_def
      split: if_splits jsarg.splits)

subsection \<open>Readiness is never lost; suspended calls stay suspended until it comes\<close>

lemma ready_handle_mono: "readyResolved s \<Longrightarrow> readyResolved (handle s e)"
  using handle_cases [of s e]
  by (auto simp: subscribe_def unsubscribe_def replaceState_def notify_def patchState_def
      patchState_resume_def resolveIfNeeded_def readyResolve_def split: promise.splits)

lemma ready_step_mono: "readyResolved s \<Longrightarrow> readyResolved (step s e)"
  by (simp add: step_def runMicrotasks_fields ready_handle_mono)

lemma ready_run_mono: "readyResolved s \<Longrightarrow> readyResolved (run s es)"
  by (induction es rule: rev_induct) (simp_all add: run_def ready_step_mono)

lemma awaiting_handle:
  assumes "\<not> readyResolved (handle s e)" "store_inv s"
  shows "set (awaiting s) \<subseteq> set (awaiting (handle s e))"
  using handle_cases [of s e] assms
  by (auto simp: subscribe_def unsubscribe_def replaceState_def notify_def patchState_def
      patchState_resume_def resolveIfNeeded_def readyResolve_def store_inv_def
      split: if_splits promise.splits)

lemma awaiting_step:
  assumes "\<not> readyResolved (step s e)" "store_inv s"
  shows "set (awaiting s) \<subseteq> set (awaiting (step s e))"
  using assms awaiting_handle [of s e] by (simp add: step_def runMicrotasks_fields)

lemma awaiting_run:
  assumes "\<not> readyResolved (run s es)" "store_inv s"
  shows "set (awaiting s) \<subseteq> set (awaiting (run s es))"
  using assms
proof (induction es rule: rev_induct)
  case Nil
  then show ?case by (simp add: run_def)
next
  case (snoc e es)
  from snoc.prems have nr: "\<not> readyResolved (run s es)"
    using ready_step_mono [of "run s es" e] by (auto simp: run_snoc)
  have "set (awaiting (run s es)) \<subseteq> set (awaiting (run s (es @ [e])))"
    using snoc.prems awaiting_step [of "run s es" e] inv_run [of s es] by (simp add: run_snoc)
  with snoc.IH [OF nr snoc.prems(2)] show ?case by blast
qed

lemma patchState_not_ready:
  assumes "\<not> readyResolved s" "store_inv s"
  shows "patchState s d = s\<lparr>awaiting := awaiting s @ [d]\<rparr> \<and>
         step s (PatchState d) = patchState s d"
  using assms by (simp add: step_def handle_def patchState_def store_inv_def runMicrotasks_def)

lemma resolving_handle:
  assumes "\<not> readyResolved s" "readyResolved (handle s e)" "store_inv s"
  shows "\<exists>v. handle s e = resolveIfNeeded (replaceState s v)"
  using handle_cases [of s e] assms
  by (auto simp: subscribe_def unsubscribe_def replaceState_def notify_def patchState_def
      store_inv_def)

lemma resolving_step:
  assumes "\<not> readyResolved s" "readyResolved (step s e)" "store_inv s"
  shows "\<exists>v. trace (step s e) =
            trace s @ StateSet v # map Called (listeners s) @ ReadyResolve #
            patch_effects (patchStrategy s) (listeners s) v (awaiting s) \<and>
            state (step s e) = foldl (patchStrategy s) v (awaiting s)"
proof -
  from assms have "readyResolved (handle s e)"
    by (simp add: step_def runMicrotasks_fields)
  with assms resolving_handle obtain v where h: "handle s e = resolveIfNeeded (replaceState s v)"
    by blast
  let ?h = "resolveIfNeeded (replaceState s v)"
  from assms(1,3) have
    "jobs ?h = awaiting s" "state ?h = v" "listeners ?h = listeners s"
    "patchStrategy ?h = patchStrategy s"
    "trace ?h = trace s @ StateSet v # map Called (listeners s) @ [ReadyResolve]"
    by (simp_all add: resolveIfNeeded_def replaceState_def notify_def readyResolve_def
        store_inv_def)
  then have "trace (runMicrotasks ?h) =
            trace s @ StateSet v # map Called (listeners s) @ ReadyResolve #
            patch_effects (patchStrategy s) (listeners s) v (awaiting s)"
    "state (runMicrotasks ?h) = foldl (patchStrategy s) v (awaiting s)"
    by (simp_all add: runMicrotasks_def foldl_resume_trace foldl_resume_state)
  with h show ?thesis by (auto simp: step_def)
qed

subsection \<open>The state follows the assignments of the trace\<close>

lemma replay_append: "replay st (a @ b) = replay (replay st a) b"
  by (induction st a rule: replay.induct) simp_all

lemma replay_Called: "replay st (map Called ls) = st"
  by (induction ls) simp_all

lemma tracks_refl: "tracks s s"
  by (simp add: tracks_def)

lemma tracks_trans: "tracks a b \<Longrightarrow> tracks b c \<Longrightarrow> tracks a c"
  by (auto simp: tracks_def replay_append)

lemma tracks_drop:
  "tracks s s' \<Longrightarrow> state s' = replay (state s) (drop (length (trace s)) (trace s'))"
  by (auto simp: tracks_def)

lemma tracks_replaceState: "tracks s (replaceState s v)"
  by (simp add: tracks_def replaceState_def notify_def replay_Called)

lemma tracks_resume: "tracks s (patchState_resume s d)"
  by (simp add: tracks_def patchState_resume_def notify_def replay_Called)

lemma tracks_patchState: "tracks s (patchState s d)"
proof (cases "readyResolved s")
  case True
  then show ?thesis using tracks_resume [of s d] by (simp add: patchState_def)
next
  case False
  then show ?thesis by (simp add: patchState_def tracks_def split: promise.splits)
qed

lemma tracks_resolveIfNeeded: "tracks s (resolveIfNeeded s)"
  by (simp add: tracks_def resolveIfNeeded_def readyResolve_def split: promise.splits)

lemma tracks_handle: "tracks s (handle s e)"
proof -
  have r: "tracks s (resolveIfNeeded (replaceState s v))" for v
    using tracks_trans [OF tracks_replaceState tracks_resolveIfNeeded] .
  have l: "tracks s (subscribe s l)" "tracks s (unsubscribe l s)" for l
    by (simp_all add: tracks_def subscribe_def unsubscribe_def)
  show ?thesis
    using handle_cases [of s e] r l tracks_replaceState [of s] tracks_patchState [of s]
    by (auto simp: tracks_refl)
qed

lemma tracks_foldl_resume: "tracks s (foldl patchState_resume s ds)"
proof (induction ds arbitrary: s)
  case Nil
  show ?case by (simp add: tracks_refl)
next
  case (Cons d ds)
  show ?case using tracks_trans [OF tracks_resume Cons.IH] by simp
qed

lemma tracks_runMicrotasks: "tracks s (runMicrotasks s)"
proof -
  have "tracks s (s\<lparr>jobs := []\<rparr>)" by (simp add: tracks_def)
  then show ?thesis
    unfolding runMicrotasks_def using tracks_foldl_resume tracks_trans by blast
qed

lemma tracks_step: "tracks s (step s e)"
  unfolding step_def using tracks_handle tracks_runMicrotasks tracks_trans by blast

lemma tracks_run: "tracks s (run s es)"
proof (induction es rule: rev_induct)
  case Nil
  show ?case by (simp add: run_def tracks_refl)
next
  case (snoc e es)
  show ?case using tracks_trans [OF snoc.IH tracks_step] by (simp add: run_snoc)
qed

subsection \<open>The concrete store\<close>

lemmas ex_defs =
  ex_imported_def ex_browser_def ex_options_def ex_store_def ex_envelope_def ex_count_def
  ex_patch_def noop_def

lemmas const_defs =
  DISPATCH_TYPE_def FETCH_STATE_TYPE_def STATE_TYPE_def PATCH_STATE_TYPE_def

lemmas op_defs =
  run_def step_def handle_def runMicrotasks_def portListener_def initializeStore_def
  patchState_def patchState_resume_def replaceState_def notify_def resolveIfNeeded_def
  readyResolve_def subscribe_def unsubscribe_def replaceReducer_def bindE_def

lemma ex_constructed:
  "Store_constructor ex_imported ex_browser (Some ex_options) =
     (Inr ex_store, ex_browser\<lparr>sent := [fetchRequest (JStr ''main'')], onMessage := 1\<rparr>)"
  by (simp add: Store_constructor_def defaultOpts_def orDefault_def orDefaultArg_def Let_def ex_defs)

section \<open>Readiness\<close>

text \<open>
  C1. The readiness signal resolves at most once per store. Take any store that the
  constructor has returned and any sequence of events (messages delivered to the port
  listener, answers to the fetch request, calls of the public methods, in any order and
  number): \<open>readyResolve\<close> has been invoked at most once, and once the promise is
  settled, no further events invoke it again or change the result of the promise.
\<close>

theorem readiness_resolves_at_most_once:
  assumes "Store_constructor imp api arg = (Inr s0, api')"
  shows "resolveCalls (run s0 es) \<le> 1 \<and>
         (readyPromise (run s0 es) \<noteq> Pending \<longrightarrow>
            resolveCalls (run s0 es) = 1 \<and>
            resolveCalls (run s0 (es @ es')) = 1 \<and>
            readyPromise (run s0 (es @ es')) = readyPromise (run s0 es))"
proof -
  have inv: "store_inv (run s0 es)" "store_inv (run s0 (es @ es'))"
    using assms constructor_fresh inv_run by blast+
  have calls: "resolveCalls (run s0 es) \<le> 1"
    using inv(1) by (cases "readyResolved (run s0 es)") (simp_all add: store_inv_def)
  have keep: "resolveCalls (run s0 es) = 1 \<and> resolveCalls (run s0 (es @ es')) = 1 \<and>
              readyPromise (run s0 (es @ es')) = readyPromise (run s0 es)"
    if "readyPromise (run s0 es) \<noteq> Pending"
  proof -
    from that inv(1) have r: "readyResolved (run s0 es)"
      by (auto simp: store_inv_def)
    then have "readyResolved (run s0 (es @ es'))"
      by (simp add: run_append ready_run_mono)
    with r inv show ?thesis by (simp add: store_inv_def)
  qed
  from calls keep show ?thesis by blast
qed

text \<open>
  On the channel \<open>main\<close>: the fetch answer arrives, then a pushed state; two more
  pushed states and a second fetch answer follow.
\<close>

theorem readiness_resolves_at_most_once_witness:
  "Store_constructor ex_imported ex_browser (Some ex_options) =
     (Inr ex_store, ex_browser\<lparr>sent := [fetchRequest (JStr ''main'')], onMessage := 1\<rparr>) \<and>
   readyPromise (run ex_store
     [FetchResponse (ex_envelope FETCH_STATE_TYPE ''main'' (ex_count 0)),
      PortMessage (ex_envelope STATE_TYPE ''main'' (ex_count 1))]) \<noteq> Pending \<and>
   resolveCalls (run ex_store
     [FetchResponse (ex_envelope FETCH_STATE_TYPE ''main'' (ex_count 0)),
      PortMessage (ex_envelope STATE_TYPE ''main'' (ex_count 1))]) = 1 \<and>
   resolveCalls (run ex_store
     ([FetchResponse (ex_envelope FETCH_STATE_TYPE ''main'' (ex_count 0)),
       PortMessage (ex_envelope STATE_TYPE ''main'' (ex_count 1))] @
      [PortMessage (ex_envelope STATE_TYPE ''main'' (ex_count 2)),
       PortMessage (ex_envelope STATE_TYPE ''main'' (ex_count 3)),
       FetchResponse (ex_envelope FETCH_STATE_TYPE ''main'' (ex_count 4))])) = 1 \<and>
   readyPromise (run ex_store
     ([FetchResponse (ex_envelope FETCH_STATE_TYPE ''main'' (ex_count 0)),
       PortMessage (ex_envelope STATE_TYPE ''main'' (ex_count 1))] @
      [PortMessage (ex_envelope STATE_TYPE ''main'' (ex_count 2)),
       PortMessage (ex_envelope STATE_TYPE ''main'' (ex_count 3)),
       FetchResponse (ex_envelope FETCH_STATE_TYPE ''main'' (ex_count 4))])) =
   readyPromise (run ex_store
     [FetchResponse (ex_envelope FETCH_STATE_TYPE ''main'' (ex_count 0)),
      PortMessage (ex_envelope STATE_TYPE ''main'' (ex_count 1))])"
proof -
  have settled: "readyPromise (run ex_store
     [FetchResponse (ex_envelope FETCH_STATE_TYPE ''main'' (ex_count 0)),
      PortMessage (ex_envelope STATE_TYPE ''main'' (ex_count 1))]) \<noteq> Pending"
    by (simp add: op_defs ex_defs const_defs)
  from readiness_resolves_at_most_once [OF ex_constructed] settled ex_constructed
  show ?thesis by blast
qed

text \<open>
  C2. A call of \<open>patchState\<close> made before readiness neither assigns the state nor
  calls a listener: on a store \<open>s\<close> that is not ready, all it does is suspend, its
  difference \<open>d\<close> joining the calls that wait for the promise. As long as the store is
  not ready (\<open>t\<close>, after any further events), no patch has been computed at all and
  \<open>d\<close> still waits. The event that makes the store ready first replaces the state by
  some \<open>v\<close> and resolves readiness; only then are the waiting differences, \<open>d\<close> among
  them, applied one after the other: each computes \<open>patchStrategy\<close> of the current state
  and the difference, assigns the result and calls the listeners.
\<close>

theorem patchState_waits_for_readiness:
  assumes "Store_constructor imp api arg = (Inr s0, api')"
      and "s = run s0 es"
      and "\<not> readyResolved s"
      and "t = run s (PatchState d # es')"
  shows "patchState s d = s\<lparr>awaiting := awaiting s @ [d]\<rparr> \<and>
         step s (PatchState d) = patchState s d \<and>
         (\<not> readyResolved t \<longrightarrow>
            \<not> list_ex isPatch (trace t) \<and> d \<in> set (awaiting t)) \<and>
         (\<not> readyResolved t \<and> readyResolved (step t e) \<longrightarrow>
            (\<exists>v. trace (step t e) =
                    trace t @ StateSet v # map Called (listeners t) @ ReadyResolve #
                    patch_effects (patchStrategy t) (listeners t) v (awaiting t) \<and>
                  state (step t e) = foldl (patchStrategy t) v (awaiting t)))"
proof -
  have inv: "store_inv s"
    using assms(1,2) constructor_fresh inv_run by blast
  have p1: "patchState s d = s\<lparr>awaiting := awaiting s @ [d]\<rparr> \<and>
            step s (PatchState d) = patchState s d"
    using assms(3) inv by (rule patchState_not_ready)
  have inv1: "store_inv (step s (PatchState d))"
    using inv by (rule inv_step)
  have t: "t = run (step s (PatchState d)) es'"
    by (simp add: assms(4) run_def)
  have inv2: "store_inv t"
    using inv1 by (simp add: t inv_run)
  have p2: "\<not> list_ex isPatch (trace t) \<and> d \<in> set (awaiting t)" if nr: "\<not> readyResolved t"
  proof -
    have "d \<in> set (awaiting (step s (PatchState d)))"
      using p1 by simp
    moreover have "set (awaiting (step s (PatchState d))) \<subseteq> set (awaiting t)"
      using nr inv1 awaiting_run [of "step s (PatchState d)" es'] by (simp add: t)
    ultimately show ?thesis
      using nr inv2 by (auto simp: store_inv_def)
  qed
  have p3: "\<exists>v. trace (step t e) =
                    trace t @ StateSet v # map Called (listeners t) @ ReadyResolve #
                    patch_effects (patchStrategy t) (listeners t) v (awaiting t) \<and>
                  state (step t e) = foldl (patchStrategy t) v (awaiting t)"
    if "\<not> readyResolved t" "readyResolved (step t e)"
    using that inv2 by (rule resolving_step)
  from p1 p2 p3 show ?thesis by blast
qed

text \<open>
  With one listener subscribed, two patches arrive before any state; then the state
  \<open>{count: 0}\<close> is pushed. The listener is called once for the pushed state and once
  for each patch, and the state ends as \<open>{count: 2}\<close>.
\<close>

theorem patchState_waits_for_readiness_witness:
  "Store_constructor ex_imported ex_browser (Some ex_options) =
     (Inr ex_store, ex_browser\<lparr>sent := [fetchRequest (JStr ''main'')], onMessage := 1\<rparr>) \<and>
   \<not> readyResolved (run ex_store [Subscribe 7]) \<and>
   \<not> readyResolved (run (run ex_store [Subscribe 7])
        [PatchState (ex_count 1), PatchState (ex_count 2)]) \<and>
   readyResolved (step (run (run ex_store [Subscribe 7])
        [PatchState (ex_count 1), PatchState (ex_count 2)])
        (PortMessage (ex_envelope STATE_TYPE ''main'' (ex_count 0)))) \<and>
   state (run (run ex_store [Subscribe 7])
        [PatchState (ex_count 1), PatchState (ex_count 2)]) = JObj [] \<and>
   trace (run (run ex_store [Subscribe 7])
        [PatchState (ex_count 1), PatchState (ex_count 2)]) = [] \<and>
   ex_count 1 \<in> set (awaiting (run (run ex_store [Subscribe 7])
        [PatchState (ex_count 1), PatchState (ex_count 2)])) \<and>
   trace (step (run (run ex_store [Subscribe 7])
        [PatchState (ex_count 1), PatchState (ex_count 2)])
        (PortMessage (ex_envelope STATE_TYPE ''main'' (ex_count 0)))) =
     [StateSet (ex_count 0), Called 7, ReadyResolve,
      PatchComputed (ex_count 0) (ex_count 1), StateSet (ex_count 1), Called 7,
      PatchComputed (ex_count 1) (ex_count 2), StateSet (ex_count 2), Called 7] \<and>
   state (step (run (run ex_store [Subscribe 7])
        [PatchState (ex_count 1), PatchState (ex_count 2)])
        (PortMessage (ex_envelope STATE_TYPE ''main'' (ex_count 0)))) = ex_count 2"
proof -
  let ?s = "run ex_store [Subscribe 7]"
  let ?t = "run ?s [PatchState (ex_count 1), PatchState (ex_count 2)]"
  let ?e = "PortMessage (ex_envelope STATE_TYPE ''main'' (ex_count 0))"
  have s: "\<not> readyResolved ?s"
    by (simp add: op_defs ex_defs)
  have t: "\<not> readyResolved ?t" "state ?t = JObj []" "trace ?t = []"
    "awaiting ?t = [ex_count 1, ex_count 2]" "listeners ?t = [7]" "patchStrategy ?t = ex_patch"
    by (simp_all add: op_defs ex_store_def)
  have e: "readyResolved (step ?t ?e)"
    by (simp add: op_defs ex_defs const_defs)
  have p: "ex_patch (ex_count 0) (ex_count 1) = ex_count 1"
    "ex_patch (ex_count 1) (ex_count 2) = ex_count 2"
    by (simp_all add: ex_patch_def ex_count_def)
  from patchState_waits_for_readiness [OF ex_constructed refl s refl, of "ex_count 1"
      "[PatchState (ex_count 2)]" ?e] t(1) e
  obtain v where v:
    "trace (step ?t ?e) =
       trace ?t @ StateSet v # map Called (listeners ?t) @ ReadyResolve #
       patch_effects (patchStrategy ?t) (listeners ?t) v (awaiting ?t)"
    "state (step ?t ?e) = foldl (patchStrategy ?t) v (awaiting ?t)"
    by blast
  have "trace (step ?t ?e) ! 0 = StateSet (ex_count 0)"
    by (simp add: op_defs ex_defs const_defs)
  with v(1) t have "v = ex_count 0"
    by simp
  with v t p have
    "trace (step ?t ?e) =
       [StateSet (ex_count 0), Called 7, ReadyResolve,
        PatchComputed (ex_count 0) (ex_count 1), StateSet (ex_count 1), Called 7,
        PatchComputed (ex_count 1) (ex_count 2), StateSet (ex_count 2), Called 7]"
    "state (step ?t ?e) = ex_count 2"
    by simp_all
  with s t e ex_constructed show ?thesis
    by simp
qed

section \<open>Mutation and notification\<close>

text \<open>
  C3, as the code has it. The state is assigned by \<open>replaceState\<close> and \<open>patchState\<close>
  only. \<open>replaceState\<close> assigns its argument and then calls every listener registered at
  that moment exactly once, on the spot and in registration order. \<open>patchState\<close> does the
  same once it is past its wait for readiness (\<open>patchState_resume\<close>): it computes the
  patch, assigns it, then calls the listeners registered at that moment. A call on a ready
  store is past the wait at once; a call on a store that is not ready assigns nothing and
  calls no listener, it is put aside and resumed as a microtask after readiness. Over
  any sequence of events on any store, the state at the end is the value of the last of
  these assignments, or the state at the start if there was none: no other operation
  writes it.
\<close>

theorem mutation_notifies_listeners:
  "state (replaceState s v) = v \<and>
   trace (replaceState s v) = trace s @ StateSet v # map Called (listeners s) \<and>
   state (patchState_resume s d) = patchStrategy s (state s) d \<and>
   trace (patchState_resume s d) =
     trace s @ PatchComputed (state s) d # StateSet (patchStrategy s (state s) d) #
     map Called (listeners s) \<and>
   (readyResolved s \<longrightarrow> patchState s d = patchState_resume s d) \<and>
   (\<not> readyResolved s \<longrightarrow>
      state (patchState s d) = state s \<and> trace (patchState s d) = trace s \<and>
      awaiting (patchState s d) @ jobs (patchState s d) \<noteq> awaiting s @ jobs s) \<and>
   runMicrotasks s = foldl patchState_resume (s\<lparr>jobs := []\<rparr>) (jobs s) \<and>
   state (run s es) = replay (state s) (drop (length (trace s)) (trace (run s es)))"
proof -
  have "state (run s es) = replay (state s) (drop (length (trace s)) (trace (run s es)))"
    using tracks_run by (rule tracks_drop)
  then show ?thesis
    by (simp add: replaceState_def patchState_resume_def patchState_def notify_def
        runMicrotasks_def split: promise.splits)
qed

text \<open>
  A ready store with the listeners 7, 8 and 7 again: a patch calls them in that order,
  the listener registered twice being called for each registration. The same listeners
  on a store that is not ready: the patch is put aside.
\<close>

theorem mutation_notifies_listeners_witness:
  "readyResolved (run ex_store
     [Subscribe 7, Subscribe 8, Subscribe 7,
      PortMessage (ex_envelope STATE_TYPE ''main'' (ex_count 0))]) \<and>
   trace (patchState (run ex_store
     [Subscribe 7, Subscribe 8, Subscribe 7,
      PortMessage (ex_envelope STATE_TYPE ''main'' (ex_count 0))]) (ex_count 1)) =
     [StateSet (ex_count 0), Called 7, Called 8, Called 7, ReadyResolve,
      PatchComputed (ex_count 0) (ex_count 1), StateSet (ex_count 1),
      Called 7, Called 8, Called 7] \<and>
   state (patchState (run ex_store
     [Subscribe 7, Subscribe 8, Subscribe 7,
      PortMessage (ex_envelope STATE_TYPE ''main'' (ex_count 0))]) (ex_count 1)) = ex_count 1 \<and>
   \<not> readyResolved (run ex_store [Subscribe 7, Subscribe 8, Subscribe 7]) \<and>
   trace (patchState (run ex_store [Subscribe 7, Subscribe 8, Subscribe 7]) (ex_count 1)) = [] \<and>
   state (patchState (run ex_store [Subscribe 7, Subscribe 8, Subscribe 7]) (ex_count 1)) =
     JObj []"
proof -
  let ?s = "run ex_store
     [Subscribe 7, Subscribe 8, Subscribe 7,
      PortMessage (ex_envelope STATE_TYPE ''main'' (ex_count 0))]"
  let ?u = "run ex_store [Subscribe 7, Subscribe 8, Subscribe 7]"
  have s: "readyResolved ?s" "state ?s = ex_count 0" "listeners ?s = [7, 8, 7]"
    "patchStrategy ?s = ex_patch"
    "trace ?s = [StateSet (ex_count 0), Called 7, Called 8, Called 7, ReadyResolve]"
    by (simp_all add: op_defs ex_defs const_defs)
  have u: "\<not> readyResolved ?u" "state ?u = JObj []" "trace ?u = []"
    by (simp_all add: op_defs ex_defs)
  have p: "ex_patch (ex_count 0) (ex_count 1) = ex_count 1"
    by (simp add: ex_patch_def ex_count_def)
  from mutation_notifies_listeners [of ?s _ "ex_count 1"] s(1)
  have "patchState ?s (ex_count 1) = patchState_resume ?s (ex_count 1)"
    "state (patchState_resume ?s (ex_count 1)) = patchStrategy ?s (state ?s) (ex_count 1)"
    "trace (patchState_resume ?s (ex_count 1)) =
       trace ?s @ PatchComputed (state ?s) (ex_count 1) #
       StateSet (patchStrategy ?s (state ?s) (ex_count 1)) # map Called (listeners ?s)"
    by blast+
  moreover
  from mutation_notifies_listeners [of ?u _ "ex_count 1"] u(1)
  have "state (patchState ?u (ex_count 1)) = state ?u"
    "trace (patchState ?u (ex_count 1)) = trace ?u"
    by blast+
  ultimately show ?thesis
    using s u p by simp
qed

text \<open>
  The claim as it was stated fails for a call of \<open>patchState\<close> on a store that is not
  ready: the listener 7 is registered, and the call returns without having called it or
  assigned the state.
\<close>

theorem patchState_before_readiness_is_silent:
  "\<not> readyResolved (subscribe ex_store 7) \<and>
   listeners (subscribe ex_store 7) = [7] \<and>
   trace (patchState (subscribe ex_store 7) (ex_count 1)) = [] \<and>
   state (patchState (subscribe ex_store 7) (ex_count 1)) = JObj [] \<and>
   ex_patch (JObj []) (ex_count 1) = ex_count 1 \<and>
   ex_count 1 \<noteq> JObj []"
  by (simp add: patchState_def subscribe_def ex_defs)

section \<open>Inbound envelopes\<close>

text \<open>
  C4, as the code has it. An inbound envelope that is falsy, or whose \<open>channelName\<close>
  is not the instance's, or whose \<open>type\<close> is not a string, is discarded before the
  deserializer is called and without any change to the store: no assignment, no listener
  called. An envelope whose \<open>type\<close> is neither the pushed-state nor the patch type
  never changes the store either. But an envelope on the instance's channel whose
  \<open>type\<close> is a string, known or not, has its payload passed to the deserializer before
  the listener sees it (\<open>shouldDeserialize\<close> asks for a string, not for a known one).
\<close>

theorem inbound_filter_discards:
  "(\<not> truthy m \<or> \<not> strict_eq (the_prop m ''channelName'') (channelName s) \<or>
    \<not> typeof_string (the_prop m ''type'') \<longrightarrow>
      serializedPortListener s m = ([], Inr s)) \<and>
   (\<not> strict_eq (the_prop m ''type'') (JStr STATE_TYPE) \<and>
    \<not> strict_eq (the_prop m ''type'') (JStr PATCH_STATE_TYPE) \<longrightarrow>
      snd (serializedPortListener s m) = Inr s \<or>
      (\<exists>e. snd (serializedPortListener s m) = Inl e)) \<and>
   (truthy m \<and> strict_eq (the_prop m ''channelName'') (channelName s) \<and>
    typeof_string (the_prop m ''type'') \<and> deserializer s = Some f \<longrightarrow>
      fst (serializedPortListener s m) = [the_prop m ''payload''])"
proof -
  have a: "serializedPortListener s m = ([], Inr s)"
    if h: "\<not> truthy m \<or> \<not> strict_eq (the_prop m ''channelName'') (channelName s) \<or>
        \<not> typeof_string (the_prop m ''type'')"
  proof -
    from h have "\<not> shouldDeserialize s m"
      by (cases m) (auto simp: shouldDeserialize_def the_prop_def)
    moreover from h have "portListener s m = Inr s"
      using portListener_discards [of m s] strict_eq_JStr by blast
    ultimately show ?thesis
      by (simp add: serializedPortListener_def)
  qed
  have b: "snd (serializedPortListener s m) = Inr s \<or>
      (\<exists>e. snd (serializedPortListener s m) = Inl e)"
    if h: "\<not> strict_eq (the_prop m ''type'') (JStr STATE_TYPE) \<and>
      \<not> strict_eq (the_prop m ''type'') (JStr PATCH_STATE_TYPE)"
  proof (cases "shouldDeserialize s m")
    case False
    then show ?thesis
      using h portListener_discards [of m s] by (simp add: serializedPortListener_def)
  next
    case True
    then obtain kvs where m: "m = JObj kvs"
      by (cases m) (auto simp: shouldDeserialize_def)
    have "portListener s (JObj (setProp ''payload'' v kvs)) = Inr s" for v
    proof -
      have "the_prop (JObj (setProp ''payload'' v kvs)) ''type'' = the_prop m ''type''"
        by (simp add: the_prop_def m map_of_setProp)
      then show ?thesis
        using h portListener_discards [of "JObj (setProp ''payload'' v kvs)" s] by simp
    qed
    with True show ?thesis
      by (auto simp: serializedPortListener_def m split: sum.splits option.splits)
  qed
  have c: "fst (serializedPortListener s m) = [the_prop m ''payload'']"
    if h: "truthy m \<and> strict_eq (the_prop m ''channelName'') (channelName s) \<and>
      typeof_string (the_prop m ''type'') \<and> deserializer s = Some f"
  proof -
    from h have "shouldDeserialize s m"
      by (simp add: shouldDeserialize_def getProp_truthy)
    with h show ?thesis
      by (simp add: serializedPortListener_def getProp_truthy split: sum.splits)
  qed
  from a b c show ?thesis by blast
qed

text \<open>
  An envelope for the channel \<open>other\<close> reaches the store of the channel \<open>main\<close>, and
  an envelope of the unknown type \<open>PING\<close> on the channel \<open>main\<close>.
\<close>

theorem inbound_filter_discards_witness:
  "\<not> strict_eq (the_prop (ex_envelope STATE_TYPE ''other'' (ex_count 1)) ''channelName'')
       (channelName ex_store) \<and>
   serializedPortListener ex_store (ex_envelope STATE_TYPE ''other'' (ex_count 1)) =
     ([], Inr ex_store) \<and>
   \<not> strict_eq (the_prop (ex_envelope ''PING'' ''main'' (ex_count 1)) ''type'')
       (JStr STATE_TYPE) \<and>
   \<not> strict_eq (the_prop (ex_envelope ''PING'' ''main'' (ex_count 1)) ''type'')
       (JStr PATCH_STATE_TYPE) \<and>
   truthy (ex_envelope ''PING'' ''main'' (ex_count 1)) \<and>
   strict_eq (the_prop (ex_envelope ''PING'' ''main'' (ex_count 1)) ''channelName'')
       (channelName ex_store) \<and>
   typeof_string (the_prop (ex_envelope ''PING'' ''main'' (ex_count 1)) ''type'') \<and>
   deserializer ex_store = Some noop \<and>
   serializedPortListener ex_store (ex_envelope ''PING'' ''main'' (ex_count 1)) =
     ([the_prop (ex_envelope ''PING'' ''main'' (ex_count 1)) ''payload''], Inr ex_store)"
proof -
  have h1: "\<not> strict_eq (the_prop (ex_envelope STATE_TYPE ''other'' (ex_count 1))
      ''channelName'') (channelName ex_store)"
    by (simp add: the_prop_def ex_defs)
  have h2: "\<not> strict_eq (the_prop (ex_envelope ''PING'' ''main'' (ex_count 1)) ''type'')
       (JStr STATE_TYPE)"
    "\<not> strict_eq (the_prop (ex_envelope ''PING'' ''main'' (ex_count 1)) ''type'')
       (JStr PATCH_STATE_TYPE)"
    by (simp_all add: the_prop_def ex_defs const_defs)
  have h3: "snd (serializedPortListener ex_store (ex_envelope ''PING'' ''main'' (ex_count 1)))
      \<noteq> Inl e" for e
    by (simp add: serializedPortListener_def shouldDeserialize_def portListener_def bindE_def
        ex_defs const_defs)
  have h4: "truthy (ex_envelope ''PING'' ''main'' (ex_count 1))"
    "strict_eq (the_prop (ex_envelope ''PING'' ''main'' (ex_count 1)) ''channelName'')
       (channelName ex_store)"
    "typeof_string (the_prop (ex_envelope ''PING'' ''main'' (ex_count 1)) ''type'')"
    "deserializer ex_store = Some noop"
    by (simp_all add: the_prop_def ex_defs)
  from inbound_filter_discards [of "ex_envelope STATE_TYPE ''other'' (ex_count 1)" ex_store]
    inbound_filter_discards [of "ex_envelope ''PING'' ''main'' (ex_count 1)" ex_store noop]
    h1 h2 h3 h4
  show ?thesis by (simp add: prod_eq_iff)
qed

text \<open>
  The claim as it was stated fails on the second of these envelopes: its type is none
  of the four type strings, and still \<open>shouldDeserialize\<close> accepts it and the
  deserializer is called, on its payload.
\<close>

theorem unrecognized_type_is_deserialized:
  "''PING'' \<noteq> FETCH_STATE_TYPE \<and> ''PING'' \<noteq> STATE_TYPE \<and>
   ''PING'' \<noteq> PATCH_STATE_TYPE \<and> ''PING'' \<noteq> DISPATCH_TYPE \<and>
   shouldDeserialize ex_store (ex_envelope ''PING'' ''main'' (ex_count 1)) \<and>
   fst (serializedPortListener ex_store (ex_envelope ''PING'' ''main'' (ex_count 1))) =
     [ex_count 1]"
  by (simp add: serializedPortListener_def shouldDeserialize_def ex_defs const_defs)

section \<open>Listeners\<close>

text \<open>
  C5, as the code has it. \<open>subscribe\<close> appends the listener to the registry, which
  keeps insertion order and admits duplicates. The function it returns removes that
  listener and no other: it filters the registry by identity, so every registration of
  the listener goes, the rest stays in order, and nothing else of the store changes. It
  is a no-op exactly when the listener is not registered at the time of the call; in
  particular a call that directly follows another is one. (A call made after the same
  listener has been subscribed again removes it again.)
\<close>

theorem subscribe_unsubscribe:
  "listeners (subscribe s l) = listeners s @ [l] \<and>
   listeners (unsubscribe l s) = filter (\<lambda>x. x \<noteq> l) (listeners s) \<and>
   unsubscribe l s = s\<lparr>listeners := listeners (unsubscribe l s)\<rparr> \<and>
   (unsubscribe l s = s \<longleftrightarrow> l \<notin> set (listeners s)) \<and>
   unsubscribe l (unsubscribe l s) = unsubscribe l s"
proof -
  have "filter (\<lambda>x. x \<noteq> l) (listeners s) = listeners s \<longleftrightarrow> l \<notin> set (listeners s)"
    by (auto simp: filter_id_conv)
  moreover have "unsubscribe l s = s \<longleftrightarrow> filter (\<lambda>x. x \<noteq> l) (listeners s) = listeners s"
  proof
    assume "unsubscribe l s = s"
    then have "listeners (unsubscribe l s) = listeners s"
      by simp
    then show "filter (\<lambda>x. x \<noteq> l) (listeners s) = listeners s"
      by (simp add: unsubscribe_def)
  next
    assume "filter (\<lambda>x. x \<noteq> l) (listeners s) = listeners s"
    then show "unsubscribe l s = s"
      by (simp add: unsubscribe_def)
  qed
  ultimately show ?thesis
    by (simp add: subscribe_def unsubscribe_def)
qed

text \<open>The listeners 7, 8, 7: unsubscribing 7 leaves 8; unsubscribing 9 changes nothing.\<close>

theorem subscribe_unsubscribe_witness:
  "listeners (subscribe (subscribe (subscribe ex_store 7) 8) 7) = [7, 8, 7] \<and>
   listeners (unsubscribe 7 (subscribe (subscribe (subscribe ex_store 7) 8) 7)) = [8] \<and>
   9 \<notin> set (listeners (subscribe (subscribe (subscribe ex_store 7) 8) 7)) \<and>
   unsubscribe 9 (subscribe (subscribe (subscribe ex_store 7) 8) 7) =
     subscribe (subscribe (subscribe ex_store 7) 8) 7"
proof -
  let ?s = "subscribe (subscribe (subscribe ex_store 7) 8) 7"
  have l: "listeners ?s = [7, 8, 7]"
    by (simp add: subscribe_def ex_store_def)
  from subscribe_unsubscribe [of ?s 7] subscribe_unsubscribe [of ?s 9] l
  show ?thesis by simp
qed

text \<open>
  The claim as it was stated fails where a listener is subscribed, unsubscribed and
  subscribed again: a second call of the first unsubscribe function is then no no-op,
  it removes the new registration. And where a listener is registered twice, one call
  removes both registrations.
\<close>

theorem stale_unsubscribe_removes_again:
  "listeners (subscribe (unsubscribe 7 (subscribe ex_store 7)) 7) = [7] \<and>
   listeners (unsubscribe 7 (subscribe (unsubscribe 7 (subscribe ex_store 7)) 7)) = [] \<and>
   listeners (subscribe (subscribe ex_store 7) 7) = [7, 7] \<and>
   listeners (unsubscribe 7 (subscribe (subscribe ex_store 7) 7)) = []"
  by (simp add: subscribe_def unsubscribe_def ex_store_def)

section \<open>Properties of dispatch\<close>




text \<open>
  How the send comes to throw: a serializer that throws makes the sender throw before
  anything reaches the transport, whatever the transport would have answered.
\<close>

lemma throwing_serializer_rejects:
  "dispatch (ex_store\<lparr>serializer := (\<lambda>x. Inl (UserThrow x))\<rparr>) ex_browser (ex_count 1)
     (serializedMessageSender (ex_store\<lparr>serializer := (\<lambda>x. Inl (UserThrow x))\<rparr>)
        (dispatch_message (ex_store\<lparr>serializer := (\<lambda>x. Inl (UserThrow x))\<rparr>) (ex_count 1))
        (Responds (JObj [(''value'', ex_count 2)]))) =
     Inr (Rejected (Thrown (UserThrow (ex_count 1))))"
  by (simp add: dispatch_def serializedMessageSender_def dispatch_message_def)

text \<open>
  C7, as the code has it. On a truthy response without a truthy \<open>error\<close>, \<open>dispatch\<close>
  runs the deserializer on \<open>response.value\<close>; if the deserializer throws, the raw value
  is used and nothing is rejected. With \<open>v\<close> the value so obtained, the promise is
  fulfilled with \<open>v.payload\<close> when \<open>v\<close> is truthy (\<open>undefined\<close> when \<open>v\<close> has no
  such property), and with \<open>v\<close> itself when \<open>v\<close> is falsy.
\<close>

theorem dispatch_resolves:
  assumes "truthy resp"
      and "\<not> truthy (the_prop resp ''error'')"
      and "deserializer s = Some f"
      and "v = (case f (the_prop resp ''value'') of
                  Inl e \<Rightarrow> the_prop resp ''value'' | Inr d \<Rightarrow> d)"
  shows "dispatch s api data (Responds resp) =
           Inr (Fulfilled (if truthy v then the_prop v ''payload'' else v))"
  using assms by (simp add: dispatch_def dispatch_callback_eq deserialized_def)

text \<open>
  The response \<open>{value: {payload: 42}}\<close>, with the default deserializer and with one
  that always throws: 42 both times.
\<close>

theorem dispatch_resolves_witness:
  "truthy (JObj [(''value'', JObj [(''payload'', JNum 42)])]) \<and>
   \<not> truthy (the_prop (JObj [(''value'', JObj [(''payload'', JNum 42)])]) ''error'') \<and>
   deserializer ex_store = Some noop \<and>
   dispatch ex_store ex_browser (ex_count 1)
     (Responds (JObj [(''value'', JObj [(''payload'', JNum 42)])])) = Inr (Fulfilled (JNum 42)) \<and>
   dispatch (ex_store\<lparr>deserializer := Some (\<lambda>x. Inl (UserThrow x))\<rparr>) ex_browser (ex_count 1)
     (Responds (JObj [(''value'', JObj [(''payload'', JNum 42)])])) = Inr (Fulfilled (JNum 42))"
proof -
  let ?r = "JObj [(''value'', JObj [(''payload'', JNum 42)])]"
  have h: "truthy ?r" "\<not> truthy (the_prop ?r ''error'')" "deserializer ex_store = Some noop"
    "deserializer (ex_store\<lparr>deserializer := Some (\<lambda>x. Inl (UserThrow x))\<rparr>) =
       Some (\<lambda>x. Inl (UserThrow x))"
    by (simp_all add: the_prop_def ex_store_def)
  have v: "the_prop ?r ''value'' = JObj [(''payload'', JNum 42)]"
    "the_prop (JObj [(''payload'', JNum 42)]) ''payload'' = JNum 42"
    by (simp_all add: the_prop_def)
  from dispatch_resolves [OF h(1) h(2) h(3) refl, of ex_browser "ex_count 1"]
    dispatch_resolves [OF h(1) h(2) h(4) refl, of ex_browser "ex_count 1"] h v
  show ?thesis by (simp add: noop_def)
qed

text \<open>
  The claim as it was stated fails on the response \<open>{value: 0}\<close>: the promise is
  fulfilled with 0, which is not what reading \<open>payload\<close> of 0 gives.
\<close>

theorem falsy_value_is_not_its_payload:
  "dispatch ex_store ex_browser (ex_count 1) (Responds (JObj [(''value'', JNum 0)])) =
     Inr (Fulfilled (JNum 0)) \<and>
   getProp (JNum 0) ''payload'' = Inr JUndefined \<and>
   JNum 0 \<noteq> JUndefined"
  by (simp add: dispatch_def dispatch_callback_eq deserialized_def the_prop_def
      ex_store_def noop_def)

text \<open>
  C10. On a truthy response without a truthy \<open>error\<close> whose value, deserialized or
  raw, is falsy, the promise is fulfilled with that very value: \<open>payload\<close> is not read,
  and the callback does not throw.
\<close>

theorem dispatch_falsy_value:
  assumes "truthy resp"
      and "\<not> truthy (the_prop resp ''error'')"
      and "deserializer s = Some f"
      and "v = (case f (the_prop resp ''value'') of
                  Inl e \<Rightarrow> the_prop resp ''value'' | Inr d \<Rightarrow> d)"
      and "\<not> truthy v"
  shows "dispatch s api data (Responds resp) = Inr (Fulfilled v)"
  using assms by (simp add: dispatch_def dispatch_callback_eq deserialized_def)

text \<open>The responses \<open>{value: null}\<close> and \<open>{}\<close>, where reading \<open>payload\<close> would throw.\<close>

theorem dispatch_falsy_value_witness:
  "truthy (JObj [(''value'', JNull)]) \<and>
   \<not> truthy (the_prop (JObj [(''value'', JNull)]) ''error'') \<and>
   deserializer ex_store = Some noop \<and>
   \<not> truthy JNull \<and>
   getProp JNull ''payload'' = Inl (TypeErrorExn ''payload'') \<and>
   dispatch ex_store ex_browser (ex_count 1) (Responds (JObj [(''value'', JNull)])) =
     Inr (Fulfilled JNull) \<and>
   dispatch ex_store ex_browser (ex_count 1) (Responds (JObj [])) = Inr (Fulfilled JUndefined)"
proof -
  have h: "truthy (JObj [(''value'', JNull)])"
    "\<not> truthy (the_prop (JObj [(''value'', JNull)]) ''error'')"
    "truthy (JObj [])" "\<not> truthy (the_prop (JObj []) ''error'')"
    "deserializer ex_store = Some noop"
    by (simp_all add: the_prop_def ex_store_def)
  have v: "JNull = (case noop (the_prop (JObj [(''value'', JNull)]) ''value'') of
                      Inl e \<Rightarrow> the_prop (JObj [(''value'', JNull)]) ''value'' | Inr d \<Rightarrow> d)"
    "JUndefined = (case noop (the_prop (JObj []) ''value'') of
                      Inl e \<Rightarrow> the_prop (JObj []) ''value'' | Inr d \<Rightarrow> d)"
    by (simp_all add: the_prop_def noop_def)
  from dispatch_falsy_value [OF h(1) h(2) h(5) v(1), of ex_browser "ex_count 1"]
    dispatch_falsy_value [OF h(3) h(4) h(5) v(2), of ex_browser "ex_count 1"] h
  show ?thesis by simp
qed

section \<open>Properties of construction\<close>

text \<open>
  C8. The constructor throws exactly when the channel name, after defaulting, is falsy
  (for a string: empty; \<open>undefined\<close> where the default is missing too), or when the
  serializer, the deserializer or the patch strategy, after defaulting, is not a
  function. When it throws, the browser API is as before: no message sent, no listener
  registered. Otherwise it returns the instance, and has sent the fetch request for its
  channel and registered one listener.
\<close>

theorem constructor_validation:
  assumes "opts = (case arg of None \<Rightarrow> defaultOpts imp | Some given \<Rightarrow> given)"
  shows "((\<exists>e. fst (Store_constructor imp api arg) = Inl e) \<longleftrightarrow>
            \<not> truthy (orDefault (opt_channelName opts) (DEFAULT_CHANNEL_NAME imp)) \<or>
            \<not> callable (orDefaultArg (opt_serializer opts) (Function noop)) \<or>
            \<not> callable (orDefaultArg (opt_deserializer opts) (Function noop)) \<or>
            \<not> callable (orDefaultArg (opt_patchStrategy opts) (Function (shallowDiff imp)))) \<and>
         ((\<exists>e. fst (Store_constructor imp api arg) = Inl e) \<longrightarrow>
            snd (Store_constructor imp api arg) = api) \<and>
         ((\<exists>s. fst (Store_constructor imp api arg) = Inr s) \<longrightarrow>
            snd (Store_constructor imp api arg) =
              api\<lparr>sent := sent api @
                       [fetchRequest (orDefault (opt_channelName opts) (DEFAULT_CHANNEL_NAME imp))],
                  onMessage := Suc (onMessage api)\<rparr>)"
  unfolding assms
  by (auto simp: Store_constructor_def Let_def defaultOpts_def
      split: jsarg.splits option.splits)

text \<open>
  An empty channel name, and a deserializer that is the number 5, make the constructor
  throw; the options of the concrete store make it succeed.
\<close>

theorem constructor_validation_witness:
  "Store_constructor ex_imported ex_browser (Some (ex_options\<lparr>opt_channelName := JStr ''''\<rparr>)) =
     (Inl (ErrorExn ''channelName is required in options''), ex_browser) \<and>
   Store_constructor ex_imported ex_browser
       (Some (ex_options\<lparr>opt_deserializer := Value (JNum 5)\<rparr>)) =
     (Inl (ErrorExn ''deserializer must be a function''), ex_browser) \<and>
   fst (Store_constructor ex_imported ex_browser (Some ex_options)) = Inr ex_store \<and>
   snd (Store_constructor ex_imported ex_browser (Some ex_options)) =
     ex_browser\<lparr>sent := sent ex_browser @ [fetchRequest (JStr ''main'')],
                onMessage := Suc (onMessage ex_browser)\<rparr>"
proof -
  let ?a = "Some (ex_options\<lparr>opt_channelName := JStr ''''\<rparr>)"
  let ?b = "Some (ex_options\<lparr>opt_deserializer := Value (JNum 5)\<rparr>)"
  have a: "fst (Store_constructor ex_imported ex_browser ?a) =
             Inl (ErrorExn ''channelName is required in options'')"
    and b: "fst (Store_constructor ex_imported ex_browser ?b) =
             Inl (ErrorExn ''deserializer must be a function'')"
    by (simp_all add: Store_constructor_def defaultOpts_def orDefault_def orDefaultArg_def
        Let_def ex_defs)
  have c: "fst (Store_constructor ex_imported ex_browser (Some ex_options)) = Inr ex_store"
    by (simp add: ex_constructed)
  have d: "orDefault (opt_channelName ex_options) (DEFAULT_CHANNEL_NAME ex_imported) =
             JStr ''main''"
    by (simp add: orDefault_def ex_defs)
  from constructor_validation [where opts = "ex_options\<lparr>opt_channelName := JStr ''''\<rparr>"
      and arg = ?a and imp = ex_imported and api = ex_browser] a
  have "snd (Store_constructor ex_imported ex_browser ?a) = ex_browser"
    by simp
  moreover
  from constructor_validation [where opts = "ex_options\<lparr>opt_deserializer := Value (JNum 5)\<rparr>"
      and arg = ?b and imp = ex_imported and api = ex_browser] b
  have "snd (Store_constructor ex_imported ex_browser ?b) = ex_browser"
    by simp
  moreover
  from constructor_validation [where opts = ex_options and arg = "Some ex_options"
      and imp = ex_imported and api = ex_browser] c d
  have "snd (Store_constructor ex_imported ex_browser (Some ex_options)) =
     ex_browser\<lparr>sent := sent ex_browser @ [fetchRequest (JStr ''main'')],
                onMessage := Suc (onMessage ex_browser)\<rparr>"
    by simp
  ultimately show ?thesis
    using a b c by (simp add: prod_eq_iff)
qed

section \<open>Initialization\<close>



end
